theory Spec2Isabelle
  imports Main
begin

section \<open>Python string operations used by \<open>snapper.py\<close>\<close>

text \<open>
  Python strings are modelled as \<^typ>\<open>string\<close>. The three string methods the snapshot
  constructor chains (\<^verbatim>\<open>replace\<close>, \<^verbatim>\<open>split\<close>, \<^verbatim>\<open>join\<close>) and \<^verbatim>\<open>startswith\<close> are
  written out; none of them looks at what a character is, only at equality of characters.
\<close>

definition startswith :: "string \<Rightarrow> string \<Rightarrow> bool" where
  \<comment> \<open>\<^verbatim>\<open>s.startswith(p)\<close>\<close>
  "startswith s p = (take (length p) s = p)"

text \<open>
  \<^verbatim>\<open>s.replace(old, new)\<close>: the occurrences of \<open>old\<close> are found from the left and do not
  overlap; with an empty \<open>old\<close> Python puts \<open>new\<close> before every character and at the end.
\<close>

function replace :: "string \<Rightarrow> string \<Rightarrow> string \<Rightarrow> string" where
  "replace old new [] = (if old = [] then new else [])"
| "replace old new (c # cs) =
     (if old = [] then new @ c # replace old new cs
      else if startswith (c # cs) old
        then new @ replace old new (drop (length old) (c # cs))
      else c # replace old new cs)"
  by pat_completeness auto
termination
  by (relation "measure (\<lambda>(old, new, s). length s)") auto

text \<open>
  \<^verbatim>\<open>s.split(sep)\<close> for a separator of one character, which is what both call sites
  pass (\<^verbatim>\<open>":"\<close> and \<^verbatim>\<open>" "\<close>): the result is never empty, \<^verbatim>\<open>"".split(":") == [""]\<close>.
\<close>

fun split :: "char \<Rightarrow> string \<Rightarrow> string list" where
  "split sep [] = [[]]"
| "split sep (c # cs) =
     (if c = sep then [] # split sep cs
      else (case split sep cs of
              [] \<Rightarrow> [[c]]
            | p # ps \<Rightarrow> (c # p) # ps))"

text \<open>\<^verbatim>\<open>sep.join(xs)\<close>\<close>

fun join :: "string \<Rightarrow> string list \<Rightarrow> string" where
  "join sep [] = []"
| "join sep [x] = x"
| "join sep (x # y # ys) = x @ sep @ join sep (y # ys)"

text \<open>\<^verbatim>\<open>f"{n}"\<close> for an integer \<open>n\<close>: its decimal digits, with a minus sign when negative.\<close>

definition digit_char :: "nat \<Rightarrow> char" where
  "digit_char d = ''0123456789'' ! d"

function str_nat :: "nat \<Rightarrow> string" where
  "str_nat n = (if n < 10 then [digit_char n] else str_nat (n div 10) @ [digit_char (n mod 10)])"
  by pat_completeness auto
termination
  by (relation "measure id") auto

declare str_nat.simps [simp del]

definition str_int :: "int \<Rightarrow> string" where
  "str_int i = (if i < 0 then CHR ''-'' # str_nat (nat (- i)) else str_nat (nat i))"

section \<open>Data model\<close>

text \<open>
  Exceptions are values. \<open>CalledProcessError\<close> is a failed run of the external tool,
  \<open>JSONDecodeError\<close> an output that does not parse, \<open>VersionTooOld\<close> the exception
  \<^verbatim>\<open>check_snapper\<close> raises itself; \<open>OtherError\<close> stands for any exception of caller
  code, such as the body of a \<^verbatim>\<open>with\<close> block.
\<close>

datatype error =
    CalledProcessError
  | JSONDecodeError
  | VersionTooOld string
  | InvalidVersion
  | IndexError
  | TypeError
  | KeyError string
  | OtherError string

text \<open>
  One entry of the tool's \<^verbatim>\<open>list\<close> output, with the fields the module reads:
  \<^verbatim>\<open>info["number"]\<close>, \<^verbatim>\<open>info["date"]\<close>, \<^verbatim>\<open>info["userdata"]\<close> (a mapping of strings or
  \<^verbatim>\<open>null\<close>) and \<^verbatim>\<open>info["cleanup"]\<close>. A dictionary is an association list read with
  \<^const>\<open>map_of\<close>; the empty list is Python's empty (falsy) dictionary.
\<close>

record info =
  number :: int
  date :: string
  userdata :: "(string \<times> string) list option"
  cleanup :: string

text \<open>
  What \<^verbatim>\<open>json.loads\<close> hands back, as far as the module reads it: \<^verbatim>\<open>None\<close>, the
  settings mapping of \<^verbatim>\<open>get-config\<close>, or the mapping from configuration names to
  snapshot entries of \<^verbatim>\<open>list\<close>.
\<close>

datatype json =
    JNone
  | JSettings "(string \<times> string) list"
  | JListing "(string \<times> info list) list"

text \<open>
  The collaborators that are not code of the module are parameters:
  \<^item> \<open>subprocess\<close>: \<^verbatim>\<open>subprocess.check_output(args).decode()\<close>, as a function of the
    invocations made so far and of the argument list; \<open>Inl\<close> when the call raises;
  \<^item> \<open>json_loads\<close>: \<^verbatim>\<open>json.loads\<close>;
  \<^item> \<open>strip\<close> and \<open>splitlines\<close>: the string methods of the same names;
  \<^item> \<open>version_lt a b\<close>: \<^verbatim>\<open>version.parse(a) < version.parse(b)\<close> of \<^verbatim>\<open>packaging\<close>.
\<close>

record env =
  subprocess :: "string list list \<Rightarrow> string list \<Rightarrow> error + string"
  json_loads :: "string \<Rightarrow> error + json"
  strip :: "string \<Rightarrow> string"
  splitlines :: "string \<Rightarrow> string list"
  version_lt :: "string \<Rightarrow> string \<Rightarrow> error + bool"

text \<open>
  The state outside the objects: whether the function attribute
  \<^verbatim>\<open>run_snapper.snapper_version_ok\<close> exists, the argument lists of all calls of
  \<^verbatim>\<open>subprocess.check_output\<close> so far (oldest first), and the argument lists printed by
  dry runs (oldest first).
\<close>

record world =
  snapper_version_ok :: bool
  invocations :: "string list list"
  printed :: "string list list"

text \<open>
  The fields of a \<^verbatim>\<open>SnapperConfig\<close> that are assigned once, in \<^verbatim>\<open>__init__\<close>; a snapshot
  keeps a reference to its configuration and reads only these. Of \<^verbatim>\<open>repo\<close> only
  \<^verbatim>\<open>repo.repopath\<close> is read.
\<close>

record SnapperConfig_core =
  name :: string
  settings :: json
  repopath :: string

record SnapperSnapshot =
  config :: SnapperConfig_core
  info :: info
  p_is_remote :: bool
  p_is_backed_up :: bool
  p_existing_backup_val :: string
  p_cleanup :: string

text \<open>\<^verbatim>\<open>self._snapshots\<close> is \<^verbatim>\<open>None\<close> or a list.\<close>

record SnapperConfig = SnapperConfig_core +
  p_snapshots :: "SnapperSnapshot list option"

definition core :: "SnapperConfig \<Rightarrow> SnapperConfig_core" where
  "core self = \<lparr>name = name self, settings = settings self, repopath = repopath self\<rparr>"

section \<open>Running the tool\<close>

definition check_output :: "env \<Rightarrow> string list \<Rightarrow> world \<Rightarrow> (error + string) \<times> world" where
  "check_output env args w =
     (subprocess env (invocations w) args, w\<lparr>invocations := invocations w @ [args]\<rparr>)"

definition check_snapper :: "env \<Rightarrow> world \<Rightarrow> (error + unit) \<times> world" where
  "check_snapper env w =
     (case check_output env [''snapper'', ''--version''] w of
        (Inl e, w') \<Rightarrow> (Inl e, w')
      | (Inr output, w') \<Rightarrow>
          (case filter (\<lambda>l. startswith l ''snapper'') (splitlines env output) of
             [] \<Rightarrow> (Inl IndexError, w')
           | line # _ \<Rightarrow>
               (case split CHR '' '' line of
                  _ # snapper_version # _ \<Rightarrow>
                    (case version_lt env snapper_version ''0.8.6'' of
                       Inl e \<Rightarrow> (Inl e, w')
                     | Inr True \<Rightarrow> (Inl (VersionTooOld snapper_version), w')
                     | Inr False \<Rightarrow> (Inr (), w'))
                | _ \<Rightarrow> (Inl IndexError, w'))))"

text \<open>
  \<^verbatim>\<open>["snapper", *([] if not config else ["-c", config]), "--jsonout", *args]\<close>; the
  parameter \<^verbatim>\<open>config\<close> (here \<open>conf\<close>) is \<^verbatim>\<open>None\<close> or a string, and both \<^verbatim>\<open>None\<close> and the empty string
  are falsy.
\<close>

definition args_new :: "string list \<Rightarrow> string option \<Rightarrow> string list" where
  "args_new args conf =
     [''snapper''] @
     (case conf of None \<Rightarrow> [] | Some c \<Rightarrow> if c = [] then [] else [''-c'', c]) @
     [''--jsonout''] @ args"

definition run_snapper ::
  "env \<Rightarrow> string list \<Rightarrow> string option \<Rightarrow> bool \<Rightarrow> world \<Rightarrow> (error + json) \<times> world" where
  "run_snapper env args conf dryrun w =
     (case (if snapper_version_ok w then (Inr (), w)
            else (case check_snapper env w of
                    (Inl e, w') \<Rightarrow> (Inl e, w')
                  | (Inr u, w') \<Rightarrow> (Inr (), w'\<lparr>snapper_version_ok := True\<rparr>))) of
        (Inl e, w1) \<Rightarrow> (Inl e, w1)
      | (Inr u, w1) \<Rightarrow>
          (if dryrun then (Inr JNone, w1\<lparr>printed := printed w1 @ [args_new args conf]\<rparr>)
           else (case check_output env (args_new args conf) w1 of
                   (Inl e, w2) \<Rightarrow> (Inl e, w2)
                 | (Inr out, w2) \<Rightarrow>
                     (if strip env out \<noteq> [] then
                        (case json_loads env (strip env out) of
                           Inl e \<Rightarrow> (Inl e, w2)
                         | Inr j \<Rightarrow> (Inr j, w2))
                      else (Inr JNone, w2)))))"

section \<open>\<^verbatim>\<open>SnapperSnapshot\<close>\<close>

text \<open>
  \<^verbatim>\<open>(info["userdata"] or dict()).get("snapborg_backup", "")\<close>: \<^verbatim>\<open>None\<close> and the empty
  mapping are falsy and give the fresh empty mapping.
\<close>

definition stored_backup_val :: "info \<Rightarrow> string" where
  "stored_backup_val i =
     (case map_of (case userdata i of None \<Rightarrow> [] | Some d \<Rightarrow> if d = [] then [] else d)
             ''snapborg_backup'' of
        None \<Rightarrow> []
      | Some v \<Rightarrow> v)"

definition SnapperSnapshot_init :: "SnapperConfig_core \<Rightarrow> info \<Rightarrow> SnapperSnapshot" where
  "SnapperSnapshot_init cfg i =
     (let is_remote = startswith (repopath cfg) ''ssh://'';
          sb_backup_vals = split CHR '':'' (replace ''true'' ''local'' (stored_backup_val i))
      in \<lparr>config = cfg,
          info = i,
          p_is_remote = is_remote,
          p_is_backed_up =
            (if (if is_remote then ''remote'' else ''local'') \<in> set sb_backup_vals
             then True else False),
          p_existing_backup_val = join '':'' sb_backup_vals,
          p_cleanup = cleanup i\<rparr>)"

definition is_backed_up :: "SnapperSnapshot \<Rightarrow> bool" where
  "is_backed_up self = p_is_backed_up self"

definition get_number :: "SnapperSnapshot \<Rightarrow> int" where
  "get_number self = number (info self)"

text \<open>
  \<^verbatim>\<open>purge_userdata\<close>, \<^verbatim>\<open>prevent_cleanup\<close> and \<^verbatim>\<open>restore_cleanup_state\<close> assign no
  attribute of \<open>self\<close>: they return the outcome and the new world only.
  \<^verbatim>\<open>set_backed_up\<close> assigns \<^verbatim>\<open>self._is_backed_up\<close> after the call of \<^verbatim>\<open>run_snapper\<close>
  has returned, so not when it raised.
\<close>

definition purge_userdata :: "env \<Rightarrow> SnapperSnapshot \<Rightarrow> bool \<Rightarrow> world \<Rightarrow> (error + unit) \<times> world" where
  "purge_userdata env self dryrun w =
     (case run_snapper env
             [''modify'', ''--userdata'', ''snapborg_backup='', str_int (get_number self)]
             (Some (name (config self))) dryrun w of
        (Inl e, w') \<Rightarrow> (Inl e, w')
      | (Inr j, w') \<Rightarrow> (Inr (), w'))"

definition set_backed_up ::
  "env \<Rightarrow> SnapperSnapshot \<Rightarrow> bool \<Rightarrow> world \<Rightarrow> (error + unit) \<times> SnapperSnapshot \<times> world" where
  "set_backed_up env self dryrun w =
     (let new_sb_backup_val = (if p_is_remote self then ''remote'' else ''local'');
          new_sb_backup_val =
            (if p_existing_backup_val self \<noteq> []
             then p_existing_backup_val self @ '':'' @ new_sb_backup_val
             else new_sb_backup_val)
      in case run_snapper env
                [''modify'', ''--userdata'', ''snapborg_backup='' @ new_sb_backup_val,
                 str_int (get_number self)]
                (Some (name (config self))) dryrun w of
           (Inl e, w') \<Rightarrow> (Inl e, self, w')
         | (Inr j, w') \<Rightarrow> (Inr (), self\<lparr>p_is_backed_up := True\<rparr>, w'))"

definition SnapperSnapshot_prevent_cleanup ::
  "env \<Rightarrow> SnapperSnapshot \<Rightarrow> bool \<Rightarrow> world \<Rightarrow> (error + unit) \<times> world" where
  "SnapperSnapshot_prevent_cleanup env self dryrun w =
     (case run_snapper env
             [''modify'', ''--cleanup-algorithm'', [], str_int (get_number self)]
             (Some (name (config self))) dryrun w of
        (Inl e, w') \<Rightarrow> (Inl e, w')
      | (Inr j, w') \<Rightarrow> (Inr (), w'))"

definition restore_cleanup_state ::
  "env \<Rightarrow> SnapperSnapshot \<Rightarrow> bool \<Rightarrow> world \<Rightarrow> (error + unit) \<times> world" where
  "restore_cleanup_state env self dryrun w =
     (case run_snapper env
             [''modify'', ''--cleanup-algorithm'', p_cleanup self, str_int (get_number self)]
             (Some (name (config self))) dryrun w of
        (Inl e, w') \<Rightarrow> (Inl e, w')
      | (Inr j, w') \<Rightarrow> (Inr (), w'))"

section \<open>\<^verbatim>\<open>SnapperConfig\<close>\<close>

text \<open>
  \<^verbatim>\<open>run_snapper(...)[self.name]\<close> and the iteration over it. Subscripting \<^verbatim>\<open>None\<close> is a
  \<^verbatim>\<open>TypeError\<close>, a missing key a \<^verbatim>\<open>KeyError\<close>. Under a settings mapping the value is a
  string: iterating it gives its characters, and \<^verbatim>\<open>info["number"]\<close> on the first of them
  is a \<^verbatim>\<open>TypeError\<close>; the empty string gives no entry at all.
\<close>

definition listing :: "json \<Rightarrow> string \<Rightarrow> error + info list" where
  "listing j k =
     (case j of
        JNone \<Rightarrow> Inl TypeError
      | JListing d \<Rightarrow> (case map_of d k of None \<Rightarrow> Inl (KeyError k) | Some infos \<Rightarrow> Inr infos)
      | JSettings d \<Rightarrow>
          (case map_of d k of
             None \<Rightarrow> Inl (KeyError k)
           | Some v \<Rightarrow> if v = [] then Inr [] else Inl TypeError))"

text \<open>
  \<^verbatim>\<open>if not self._snapshots\<close>: both \<^verbatim>\<open>None\<close> and the empty list are falsy, so both lead to
  the query.
\<close>

definition get_snapshots ::
  "env \<Rightarrow> SnapperConfig \<Rightarrow> world \<Rightarrow> (error + SnapperSnapshot list) \<times> SnapperConfig \<times> world" where
  "get_snapshots env self w =
     (case p_snapshots self of
        Some (s # ss) \<Rightarrow> (Inr (s # ss), self, w)
      | _ \<Rightarrow>
          (case run_snapper env [''list'', ''--disable-used-space''] (Some (name self)) False w of
             (Inl e, w') \<Rightarrow> (Inl e, self, w')
           | (Inr j, w') \<Rightarrow>
               (case listing j (name self) of
                  Inl e \<Rightarrow> (Inl e, self, w')
                | Inr infos \<Rightarrow>
                    (let snaps = map (SnapperSnapshot_init (core self))
                                   (filter (\<lambda>i. number i \<noteq> 0) infos)
                     in (Inr snaps, self\<lparr>p_snapshots := Some snaps\<rparr>, w')))))"

text \<open>\<^verbatim>\<open>SnapperConfig.get(config_name, repo)\<close>\<close>

definition SnapperConfig_get ::
  "env \<Rightarrow> string \<Rightarrow> string \<Rightarrow> world \<Rightarrow> (error + SnapperConfig) \<times> world" where
  "SnapperConfig_get env config_name rp w =
     (case run_snapper env [''get-config''] (Some config_name) False w of
        (Inl e, w') \<Rightarrow> (Inl e, w')
      | (Inr j, w') \<Rightarrow>
          (Inr \<lparr>name = config_name, settings = j, repopath = rp, p_snapshots = None\<rparr>, w'))"

text \<open>The two loops of the guard: each stops at the first call that raises.\<close>

fun prevent_all :: "env \<Rightarrow> SnapperSnapshot list \<Rightarrow> bool \<Rightarrow> world \<Rightarrow> (error + unit) \<times> world" where
  "prevent_all env [] dryrun w = (Inr (), w)"
| "prevent_all env (s # ss) dryrun w =
     (case SnapperSnapshot_prevent_cleanup env s dryrun w of
        (Inl e, w') \<Rightarrow> (Inl e, w')
      | (Inr u, w') \<Rightarrow> prevent_all env ss dryrun w')"

fun restore_all :: "env \<Rightarrow> SnapperSnapshot list \<Rightarrow> bool \<Rightarrow> world \<Rightarrow> (error + unit) \<times> world" where
  "restore_all env [] dryrun w = (Inr (), w)"
| "restore_all env (s # ss) dryrun w =
     (case restore_cleanup_state env s dryrun w of
        (Inl e, w') \<Rightarrow> (Inl e, w')
      | (Inr u, w') \<Rightarrow> restore_all env ss dryrun w')"

text \<open>
  The context manager \<^verbatim>\<open>SnapperConfig.prevent_cleanup\<close> together with the \<^verbatim>\<open>with\<close> block
  it guards. The block is a parameter \<open>body\<close>: it gets the guarded snapshots and the world,
  and returns its outcome (\<open>Inl\<close> when it raises), the guarded snapshots as its calls of
  their methods left them, and the new world. The entry loop stands before \<^verbatim>\<open>try\<close>: when
  it raises, neither the block nor the \<^verbatim>\<open>finally\<close> clause runs. An exception of the
  \<^verbatim>\<open>finally\<close> clause replaces the outcome of the block. The result is the outcome, the
  configuration (with its cache, when the snapshots were loaded here), the guarded
  snapshots (none when loading them raised) and the world.
\<close>

type_synonym body =
  "SnapperSnapshot list \<Rightarrow> world \<Rightarrow> (error + unit) \<times> SnapperSnapshot list \<times> world"

definition SnapperConfig_prevent_cleanup ::
  "env \<Rightarrow> SnapperConfig \<Rightarrow> SnapperSnapshot list option \<Rightarrow> bool \<Rightarrow> body \<Rightarrow> world \<Rightarrow>
     (error + unit) \<times> SnapperConfig \<times> SnapperSnapshot list \<times> world" where
  "SnapperConfig_prevent_cleanup env self snapshots dryrun body w =
     (case (case snapshots of
              None \<Rightarrow> get_snapshots env self w
            | Some ss \<Rightarrow> (Inr ss, self, w)) of
        (Inl e, self1, w1) \<Rightarrow> (Inl e, self1, [], w1)
      | (Inr ss, self1, w1) \<Rightarrow>
          (case prevent_all env ss dryrun w1 of
             (Inl e, w2) \<Rightarrow> (Inl e, self1, ss, w2)
           | (Inr u, w2) \<Rightarrow>
               (case body ss w2 of
                  (r, ss', w3) \<Rightarrow>
                    (case restore_all env ss' dryrun w3 of
                       (Inl e, w4) \<Rightarrow> (Inl e, self1, ss', w4)
                     | (Inr u', w4) \<Rightarrow> (r, self1, ss', w4)))))"

section \<open>Observations used in the statements\<close>

text \<open>The rewriting the constructor applies to the stored tag.\<close>

abbreviation true_to_local :: "string \<Rightarrow> string" where
  "true_to_local \<equiv> replace ''true'' ''local''"


text \<open>
  The commands of a run: the ones executed by a real run, the ones printed by a dry run.
\<close>

definition issued :: "bool \<Rightarrow> world \<Rightarrow> string list list" where
  "issued dryrun w = (if dryrun then printed w else invocations w)"

text \<open>
  The two \<^verbatim>\<open>modify\<close> commands as argument lists, for the snapshot \<open>n\<close> of the
  configuration \<open>c\<close>: the one that sets the cleanup algorithm to \<open>v\<close>, and the one that sets
  the backup tag to \<open>v\<close>.
\<close>

definition cleanup_cmd :: "string \<Rightarrow> int \<Rightarrow> string \<Rightarrow> string list" where
  "cleanup_cmd c n v = args_new [''modify'', ''--cleanup-algorithm'', v, str_int n] (Some c)"

definition userdata_cmd :: "string \<Rightarrow> int \<Rightarrow> string \<Rightarrow> string list" where
  "userdata_cmd c n v =
     args_new [''modify'', ''--userdata'', ''snapborg_backup='' @ v, str_int n] (Some c)"

text \<open>What the restore pass reads of a snapshot.\<close>

definition restore_key :: "SnapperSnapshot \<Rightarrow> string \<times> int \<times> string" where
  "restore_key s = (name (config s), number (info s), p_cleanup s)"

text \<open>The token of the destination class a configuration backs up to.\<close>

definition token :: "SnapperConfig_core \<Rightarrow> string" where
  "token c = (if startswith (repopath c) ''ssh://'' then ''remote'' else ''local'')"

text \<open>
  The backed-up test in the words of the specification, for comparison with the
  constructor: a stored value of exactly \<^verbatim>\<open>"true"\<close> is read as \<^verbatim>\<open>"local"\<close>, every other
  stored value is tokenized as it is, and the token of the destination class is looked up.
\<close>

definition spec_is_backed_up :: "string \<Rightarrow> bool \<Rightarrow> bool" where
  "spec_is_backed_up tag destination_is_remote =
     ((if destination_is_remote then ''remote'' else ''local'')
        \<in> set (split CHR '':'' (if tag = ''true'' then ''local'' else tag)))"

section \<open>Example runs\<close>

text \<open>
  Concrete collaborators and inputs. \<open>env_quiet\<close> is a tool that is recent enough and
  answers every other command with empty output; \<open>env_fail_second\<close> fails on its second
  call; \<open>env_live_only\<close> lists the live entry (number 0) alone. The library parameters
  are given on the strings that occur in these runs, where they agree with Python's.
\<close>

definition env_quiet :: env where
  "env_quiet =
     \<lparr>subprocess = (\<lambda>h a. if a = [''snapper'', ''--version''] then Inr ''snapper 0.10.4'' else Inr []),
      json_loads = (\<lambda>s. Inl JSONDecodeError),
      strip = (\<lambda>s. s),
      splitlines = (\<lambda>s. [s]),
      version_lt = (\<lambda>a b. Inr False)\<rparr>"

definition env_fail_second :: env where
  "env_fail_second =
     \<lparr>subprocess = (\<lambda>h a. if length h = 1 then Inl CalledProcessError else Inr []),
      json_loads = (\<lambda>s. Inl JSONDecodeError),
      strip = (\<lambda>s. s),
      splitlines = (\<lambda>s. [s]),
      version_lt = (\<lambda>a b. Inr False)\<rparr>"

definition info_live :: info where
  "info_live = \<lparr>number = 0, date = ''2024-01-01 00:00:00'', userdata = None, cleanup = []\<rparr>"

definition env_live_only :: env where
  "env_live_only =
     \<lparr>subprocess = (\<lambda>h a. if a = [''snapper'', ''-c'', ''root'', ''--jsonout'', ''list'',
                                     ''--disable-used-space'']
                            then Inr ''{root: [live]}'' else Inr []),
      json_loads = (\<lambda>s. Inr (JListing [(''root'', [info_live])])),
      strip = (\<lambda>s. s),
      splitlines = (\<lambda>s. [s]),
      version_lt = (\<lambda>a b. Inr False)\<rparr>"

definition w_fresh :: world where
  "w_fresh = \<lparr>snapper_version_ok = False, invocations = [], printed = []\<rparr>"

definition w_checked :: world where
  "w_checked = \<lparr>snapper_version_ok = True, invocations = [], printed = []\<rparr>"

definition cfg_local :: SnapperConfig_core where
  "cfg_local = \<lparr>name = ''root'', settings = JNone, repopath = ''/mnt/backup/repo''\<rparr>"

definition cfg_remote :: SnapperConfig_core where
  "cfg_remote = \<lparr>name = ''root'', settings = JNone, repopath = ''ssh://host/repo''\<rparr>"

definition config_root :: SnapperConfig where
  "config_root =
     \<lparr>name = ''root'', settings = JNone, repopath = ''/mnt/backup/repo'', p_snapshots = None\<rparr>"

definition info_A :: info where
  "info_A = \<lparr>number = 1, date = ''2024-01-01 10:00:00'', userdata = None,
             cleanup = ''number-cleanup''\<rparr>"

definition info_B :: info where
  "info_B = \<lparr>number = 2, date = ''2024-01-02 10:00:00'', userdata = Some [],
             cleanup = ''timeline''\<rparr>"

definition info_C :: info where
  "info_C = \<lparr>number = 3, date = ''2024-01-03 10:00:00'', userdata = None, cleanup = []\<rparr>"

definition with_tag :: "info \<Rightarrow> string \<Rightarrow> info" where
  "with_tag i v = i\<lparr>userdata := Some [(''snapborg_backup'', v)]\<rparr>"

text \<open>Bodies of a guarded block: one that returns, one that marks the first snapshot and
  then raises.\<close>

definition body_pass :: body where
  "body_pass ss w = (Inr (), ss, w)"

definition body_mark_then_raise :: body where
  "body_mark_then_raise ss w =
     (case ss of
        [] \<Rightarrow> (Inl (OtherError ''archive failed''), ss, w)
      | s # rest \<Rightarrow>
          (case set_backed_up env_quiet s False w of
             (Inl e, s', w') \<Rightarrow> (Inl e, s' # rest, w')
           | (Inr u, s', w') \<Rightarrow> (Inl (OtherError ''archive failed''), s' # rest, w')))"

section \<open>Facts about the string operations\<close>

lemma split_not_Nil: "split sep s \<noteq> []"
  by (induction s) (auto split: list.splits)

lemma split_Cons_other:
  "c \<noteq> sep \<Longrightarrow> split sep (c # cs) = (c # hd (split sep cs)) # tl (split sep cs)"
  using split_not_Nil [of sep cs] by (cases "split sep cs") auto

lemma join_split: "join [sep] (split sep s) = s"
proof (induction s)
  case Nil
  show ?case by simp
next
  case (Cons c cs)
  obtain p ps where ps: "split sep cs = p # ps"
    using split_not_Nil [of sep cs] by (cases "split sep cs") auto
  show ?case
  proof (cases "c = sep")
    case True
    with Cons ps show ?thesis by simp
  next
    case False
    with Cons ps show ?thesis by (cases ps) auto
  qed
qed

lemma replace_true_Nil: "replace ''true'' ''local'' [] = []"
  by simp

lemma replace_true_hit:
  "replace ''true'' ''local'' (''true'' @ s) = ''local'' @ replace ''true'' ''local'' s"
  by (simp add: startswith_def)

lemma replace_true_miss:
  "\<not> startswith (c # cs) ''true'' \<Longrightarrow>
   replace ''true'' ''local'' (c # cs) = c # replace ''true'' ''local'' cs"
  by simp

lemma startswith_true: "startswith s ''true'' \<longleftrightarrow> (\<exists>r. s = ''true'' @ r)"
  unfolding startswith_def
  by (metis append_eq_conv_conj length_Cons list.size(3) append_take_drop_id)


lemma startswith_append: "startswith x t \<Longrightarrow> startswith (x @ r) t"
  unfolding startswith_def by (metis append_eq_conv_conj append.assoc append_take_drop_id)

lemma split_hd_prefix: "\<exists>r. cs = hd (split sep cs) @ r"
  by (induction cs) (auto split: list.splits)

lemma split_append_nosep:
  "sep \<notin> set p \<Longrightarrow> split sep (p @ x) = (p @ hd (split sep x)) # tl (split sep x)"
proof (induction p)
  case Nil
  then show ?case using split_not_Nil [of sep x] by simp
next
  case (Cons a p)
  then have "a \<noteq> sep" and "sep \<notin> set p" by auto
  with Cons.IH show ?case by (simp add: split_Cons_other del: split.simps)
qed

lemma true_to_local_split: "split CHR '':'' (true_to_local s) = map true_to_local (split CHR '':'' s)"
proof (induction "''true''" "''local''" s rule: replace.induct)
  case 1
  show ?case by simp
next
  case (2 c cs)
  show ?case
  proof (cases "startswith (c # cs) ''true''")
    case True
    then obtain r where r: "c # cs = ''true'' @ r"
      by (auto simp: startswith_true)
    then have dr: "drop (length ''true'') (c # cs) = r" by simp
    have ih: "split CHR '':'' (true_to_local r) = map true_to_local (split CHR '':'' r)"
      using 2(2) True dr by simp
    have ne: "split CHR '':'' r \<noteq> []" by (rule split_not_Nil)
    have l: "split CHR '':'' (true_to_local (''true'' @ r)) =
        (''local'' @ hd (split CHR '':'' (true_to_local r))) # tl (split CHR '':'' (true_to_local r))"
      unfolding replace_true_hit by (rule split_append_nosep) simp
    have rr: "split CHR '':'' (''true'' @ r) =
        (''true'' @ hd (split CHR '':'' r)) # tl (split CHR '':'' r)"
      by (rule split_append_nosep) simp
    show ?thesis
      unfolding r l rr ih using ne replace_true_hit [of "hd (split CHR '':'' r)"]
      by (simp add: hd_map map_tl del: split.simps replace.simps)
  next
    case False
    have ih: "split CHR '':'' (true_to_local cs) = map true_to_local (split CHR '':'' cs)"
      using 2(3) False by simp
    have n: "true_to_local (c # cs) = c # true_to_local cs" using False by (rule replace_true_miss)
    have ne: "split CHR '':'' cs \<noteq> []" by (rule split_not_Nil)
    show ?thesis
    proof (cases "c = CHR '':''")
      case True
      then show ?thesis unfolding n using ih by simp
    next
      case c: False
      obtain r where r: "cs = hd (split CHR '':'' cs) @ r"
        using split_hd_prefix by blast
      have "\<not> startswith (c # hd (split CHR '':'' cs)) ''true''"
      proof
        assume "startswith (c # hd (split CHR '':'' cs)) ''true''"
        then have "startswith ((c # hd (split CHR '':'' cs)) @ r) ''true''"
          by (rule startswith_append)
        with r False show False by simp
      qed
      then have m: "true_to_local (c # hd (split CHR '':'' cs)) = c # true_to_local (hd (split CHR '':'' cs))"
        by (rule replace_true_miss)
      show ?thesis
        unfolding n split_Cons_other [OF c] ih using ne m
        by (simp add: hd_map map_tl del: split.simps replace.simps)
    qed
  qed
qed

lemma true_to_local_short: "length (true_to_local s) < 5 \<Longrightarrow> true_to_local s = s"
proof (induction "''true''" "''local''" s rule: replace.induct)
  case 1
  show ?case by simp
next
  case (2 c cs)
  show ?case
  proof (cases "startswith (c # cs) ''true''")
    case True
    with 2(4) show ?thesis by simp
  next
    case False
    with 2(3,4) show ?thesis by simp
  qed
qed

lemma true_to_local_no_l: "CHR ''l'' \<notin> set (true_to_local s) \<Longrightarrow> true_to_local s = s"
proof (induction "''true''" "''local''" s rule: replace.induct)
  case 1
  show ?case by simp
next
  case (2 c cs)
  show ?case
  proof (cases "startswith (c # cs) ''true''")
    case True
    with 2(4) show ?thesis by simp
  next
    case False
    with 2(3,4) show ?thesis by simp
  qed
qed

lemma true_to_local_Nil_iff: "true_to_local s = [] \<longleftrightarrow> s = []"
  by (cases s) auto

lemma true_to_local_eq_local: "true_to_local t = ''local'' \<longleftrightarrow> t = ''local'' \<or> t = ''true''"
proof
  assume a: "true_to_local t = ''local''"
  show "t = ''local'' \<or> t = ''true''"
  proof (cases "startswith t ''true''")
    case True
    then obtain r where r: "t = ''true'' @ r" by (auto simp: startswith_true)
    with a have "true_to_local r = []" by (simp only: replace_true_hit) simp
    then have "r = []" by (simp only: true_to_local_Nil_iff)
    with r show ?thesis by simp
  next
    case False
    show ?thesis
    proof (cases t)
      case Nil
      with a show ?thesis by simp
    next
      case (Cons c cs)
      with False a have "c # true_to_local cs = ''local''" by simp
      then have c: "c = CHR ''l''" and n: "true_to_local cs = ''ocal''" by simp_all
      from n have "length (true_to_local cs) < 5" by simp
      then have "true_to_local cs = cs" by (rule true_to_local_short)
      with n c Cons show ?thesis by simp
    qed
  qed
next
  assume "t = ''local'' \<or> t = ''true''"
  then show "true_to_local t = ''local''" by (auto simp: startswith_def)
qed

lemma true_to_local_eq_remote: "true_to_local t = ''remote'' \<longleftrightarrow> t = ''remote''"
proof
  assume a: "true_to_local t = ''remote''"
  then have "CHR ''l'' \<notin> set (true_to_local t)" by simp
  then have "true_to_local t = t" by (rule true_to_local_no_l)
  with a show "t = ''remote''" by simp
next
  assume "t = ''remote''"
  then show "true_to_local t = ''remote''" by (simp add: startswith_def)
qed

section \<open>Facts about \<^verbatim>\<open>run_snapper\<close> and the two loops\<close>

lemma run_snapper_dry:
  "snapper_version_ok w \<Longrightarrow>
   run_snapper env args conf True w =
     (Inr JNone, w\<lparr>printed := printed w @ [args_new args conf]\<rparr>)"
  by (simp add: run_snapper_def)

lemma run_snapper_issued:
  assumes "snapper_version_ok w" and "run_snapper env args conf d w = (r, w')"
  shows "issued d w' = issued d w @ [args_new args conf]"
    and "snapper_version_ok w'"
    and "issued (\<not> d) w' = issued (\<not> d) w"
  using assms
  by (auto simp: run_snapper_def check_output_def issued_def split: sum.splits if_splits)

lemma prevent_cleanup_issued:
  assumes "snapper_version_ok w" and "SnapperSnapshot_prevent_cleanup env s d w = (r, w')"
  shows "issued d w' = issued d w @ [cleanup_cmd (name (config s)) (get_number s) []]"
    and "snapper_version_ok w'"
proof -
  obtain r0 where "run_snapper env [''modify'', ''--cleanup-algorithm'', [], str_int (get_number s)]
       (Some (name (config s))) d w = (r0, w')"
    using assms(2) by (auto simp: SnapperSnapshot_prevent_cleanup_def split: prod.splits sum.splits)
  from run_snapper_issued(1,2) [OF assms(1) this]
  show "issued d w' = issued d w @ [cleanup_cmd (name (config s)) (get_number s) []]"
    and "snapper_version_ok w'"
    by (simp_all add: cleanup_cmd_def)
qed

lemma restore_cleanup_issued:
  assumes "snapper_version_ok w" and "restore_cleanup_state env s d w = (r, w')"
  shows "issued d w' = issued d w @ [cleanup_cmd (name (config s)) (get_number s) (p_cleanup s)]"
    and "snapper_version_ok w'"
proof -
  obtain r0 where "run_snapper env [''modify'', ''--cleanup-algorithm'', p_cleanup s, str_int (get_number s)]
       (Some (name (config s))) d w = (r0, w')"
    using assms(2) by (auto simp: restore_cleanup_state_def split: prod.splits sum.splits)
  from run_snapper_issued(1,2) [OF assms(1) this]
  show "issued d w' = issued d w @ [cleanup_cmd (name (config s)) (get_number s) (p_cleanup s)]"
    and "snapper_version_ok w'"
    by (simp_all add: cleanup_cmd_def)
qed

lemma restore_all_issued:
  "snapper_version_ok w \<Longrightarrow> restore_all env ss d w = (Inr u, w') \<Longrightarrow>
   issued d w' = issued d w @
     map (\<lambda>s. cleanup_cmd (name (config s)) (get_number s) (p_cleanup s)) ss
   \<and> snapper_version_ok w'"
proof (induction ss arbitrary: w)
  case Nil
  then show ?case by simp
next
  case (Cons s ss)
  obtain r1 w1 where r1: "restore_cleanup_state env s d w = (r1, w1)"
    by (cases "restore_cleanup_state env s d w")
  with Cons.prems(2) obtain u1 where "r1 = Inr u1" and rest: "restore_all env ss d w1 = (Inr u, w')"
    by (cases r1) auto
  from restore_cleanup_issued [OF Cons.prems(1) r1] Cons.IH [OF _ rest]
  show ?case by simp
qed

lemma prevent_all_issued:
  "snapper_version_ok w \<Longrightarrow> prevent_all env ss d w = (Inr u, w') \<Longrightarrow>
   issued d w' = issued d w @ map (\<lambda>s. cleanup_cmd (name (config s)) (get_number s) []) ss
   \<and> snapper_version_ok w'"
proof (induction ss arbitrary: w)
  case Nil
  then show ?case by simp
next
  case (Cons s ss)
  obtain r1 w1 where r1: "SnapperSnapshot_prevent_cleanup env s d w = (r1, w1)"
    by (cases "SnapperSnapshot_prevent_cleanup env s d w")
  with Cons.prems(2) obtain u1 where "r1 = Inr u1" and rest: "prevent_all env ss d w1 = (Inr u, w')"
    by (cases r1) auto
  from prevent_cleanup_issued [OF Cons.prems(1) r1] Cons.IH [OF _ rest]
  show ?case by simp
qed

lemma prevent_all_failed:
  "snapper_version_ok w \<Longrightarrow> prevent_all env ss d w = (Inl e, w') \<Longrightarrow>
   \<exists>k. k < length ss \<and>
     issued d w' = issued d w @
       map (\<lambda>s. cleanup_cmd (name (config s)) (get_number s) []) (take (Suc k) ss)"
proof (induction ss arbitrary: w)
  case Nil
  then show ?case by simp
next
  case (Cons s ss)
  obtain r1 w1 where r1: "SnapperSnapshot_prevent_cleanup env s d w = (r1, w1)"
    by (cases "SnapperSnapshot_prevent_cleanup env s d w")
  note step = prevent_cleanup_issued [OF Cons.prems(1) r1]
  show ?case
  proof (cases r1)
    case (Inl e1)
    with r1 Cons.prems(2) have "w' = w1" by simp
    with step(1) have "issued d w' = issued d w @
       map (\<lambda>s. cleanup_cmd (name (config s)) (get_number s) []) (take (Suc 0) (s # ss))"
      by simp
    then show ?thesis by blast
  next
    case (Inr u1)
    with r1 Cons.prems(2) have rest: "prevent_all env ss d w1 = (Inl e, w')" by simp
    from Cons.IH [OF step(2) rest] obtain k where k: "k < length ss"
      and i: "issued d w' = issued d w1 @
         map (\<lambda>s. cleanup_cmd (name (config s)) (get_number s) []) (take (Suc k) ss)"
      by blast
    from i step(1) have "issued d w' = issued d w @
       map (\<lambda>s. cleanup_cmd (name (config s)) (get_number s) []) (take (Suc (Suc k)) (s # ss))"
      by simp
    with k show ?thesis by (intro exI [of _ "Suc k"]) simp
  qed
qed

lemma restore_all_cong:
  "map restore_key ss' = map restore_key ss \<Longrightarrow> restore_all env ss' d w = restore_all env ss d w"
proof (induction ss arbitrary: ss' w)
  case Nil
  then show ?case by simp
next
  case (Cons s ss)
  then obtain t ts where ss': "ss' = t # ts" and k: "restore_key t = restore_key s"
    and ks: "map restore_key ts = map restore_key ss"
    by (cases ss') auto
  from k have "restore_cleanup_state env t d = restore_cleanup_state env s d"
    by (auto simp: restore_key_def restore_cleanup_state_def get_number_def fun_eq_iff)
  with Cons.IH [OF ks] ss' show ?case by (simp split: prod.splits sum.splits)
qed

section \<open>The backed-up test of the constructor\<close>

lemma mem_map_true_to_local_local:
  "''local'' \<in> set (map true_to_local ts) \<longleftrightarrow> ''local'' \<in> set ts \<or> ''true'' \<in> set ts"
proof -
  have "''local'' \<in> set (map true_to_local ts) \<longleftrightarrow> (\<exists>t \<in> set ts. true_to_local t = ''local'')"
    unfolding set_map image_iff by (rule bex_cong [OF refl]) (rule eq_commute)
  also have "\<dots> \<longleftrightarrow> (\<exists>t \<in> set ts. t = ''local'' \<or> t = ''true'')"
    unfolding true_to_local_eq_local ..
  also have "\<dots> \<longleftrightarrow> ''local'' \<in> set ts \<or> ''true'' \<in> set ts"
    by blast
  finally show ?thesis .
qed

lemma mem_map_true_to_local_remote:
  "''remote'' \<in> set (map true_to_local ts) \<longleftrightarrow> ''remote'' \<in> set ts"
proof -
  have "''remote'' \<in> set (map true_to_local ts) \<longleftrightarrow> (\<exists>t \<in> set ts. true_to_local t = ''remote'')"
    unfolding set_map image_iff by (rule bex_cong [OF refl]) (rule eq_commute)
  also have "\<dots> \<longleftrightarrow> (\<exists>t \<in> set ts. t = ''remote'')"
    unfolding true_to_local_eq_remote ..
  also have "\<dots> \<longleftrightarrow> ''remote'' \<in> set ts"
    by blast
  finally show ?thesis .
qed

lemma init_is_backed_up:
  "p_is_backed_up (SnapperSnapshot_init c i) \<longleftrightarrow>
     (if startswith (repopath c) ''ssh://'' then ''remote'' else ''local'')
       \<in> set (map true_to_local (split CHR '':'' (stored_backup_val i)))"
  unfolding SnapperSnapshot_init_def Let_def true_to_local_split
  by (simp only: SnapperSnapshot.simps if_True if_False if_bool_eq_conj simp_thms)

text \<open>
  C5 (amended). For a remote destination \<^verbatim>\<open>is_backed_up\<close> holds exactly when the
  colon-separated tokens of the stored tag contain \<^verbatim>\<open>remote\<close>; for a local destination,
  exactly when they contain \<^verbatim>\<open>local\<close> or \<^verbatim>\<open>true\<close>. So every token \<^verbatim>\<open>true\<close> counts
  as \<^verbatim>\<open>local\<close>, not only a stored value that is exactly \<^verbatim>\<open>true\<close>.
\<close>

theorem is_backed_up_tokens:
  "is_backed_up (SnapperSnapshot_init c i) \<longleftrightarrow>
     (if startswith (repopath c) ''ssh://''
      then ''remote'' \<in> set (split CHR '':'' (stored_backup_val i))
      else ''local'' \<in> set (split CHR '':'' (stored_backup_val i))
         \<or> ''true'' \<in> set (split CHR '':'' (stored_backup_val i)))"
proof (cases "startswith (repopath c) ''ssh://''")
  case True
  then show ?thesis
    unfolding is_backed_up_def init_is_backed_up
    by (simp only: if_True mem_map_true_to_local_remote)
next
  case False
  then show ?thesis
    unfolding is_backed_up_def init_is_backed_up
    by (simp only: if_False mem_map_true_to_local_local)
qed

lemmas example_defs =
  env_quiet_def env_fail_second_def env_live_only_def info_live_def w_fresh_def w_checked_def
  cfg_local_def cfg_remote_def config_root_def info_A_def info_B_def info_C_def with_tag_def
  body_pass_def body_mark_then_raise_def

text \<open>
  C5 as stated fails at the stored tag \<^verbatim>\<open>true:remote\<close> and a local destination: the
  constructor reports the snapshot as backed up, while the test in the words of the
  specification (only a stored value of exactly \<^verbatim>\<open>true\<close> is normalised) does not.
\<close>

theorem is_backed_up_counterexample:
  "is_backed_up (SnapperSnapshot_init cfg_local (with_tag info_A ''true:remote''))
   \<and> \<not> spec_is_backed_up (stored_backup_val (with_tag info_A ''true:remote'')) False"
  by (simp add: example_defs startswith_def stored_backup_val_def SnapperSnapshot_init_def
      is_backed_up_def spec_is_backed_up_def Let_def)

section \<open>The tag that \<^verbatim>\<open>set_backed_up\<close> persists\<close>

lemma init_existing:
  "p_existing_backup_val (SnapperSnapshot_init c i) = true_to_local (stored_backup_val i)"
  by (simp add: SnapperSnapshot_init_def Let_def join_split del: replace.simps)

lemma set_backed_up_issued:
  assumes "snapper_version_ok w" and "set_backed_up env s d w = (r, s', w')"
  shows "issued d w' = issued d w @
           [userdata_cmd (name (config s)) (get_number s)
              (if p_existing_backup_val s = [] then (if p_is_remote s then ''remote'' else ''local'')
               else p_existing_backup_val s @ '':'' @ (if p_is_remote s then ''remote'' else ''local''))]"
    and "snapper_version_ok w'"
    and "restore_key s' = restore_key s"
    and "p_existing_backup_val s' = p_existing_backup_val s"
    and "p_is_remote s' = p_is_remote s"
proof -
  let ?v = "(if p_existing_backup_val s = [] then (if p_is_remote s then ''remote'' else ''local'')
               else p_existing_backup_val s @ '':'' @ (if p_is_remote s then ''remote'' else ''local''))"
  obtain r0 where run: "run_snapper env [''modify'', ''--userdata'', ''snapborg_backup='' @ ?v,
        str_int (get_number s)] (Some (name (config s))) d w = (r0, w')"
    using assms(2) by (auto simp: set_backed_up_def Let_def split: prod.splits sum.splits if_splits)
  from run_snapper_issued(1,2) [OF assms(1) run]
  show "issued d w' = issued d w @ [userdata_cmd (name (config s)) (get_number s) ?v]"
    and "snapper_version_ok w'"
    by (simp_all add: userdata_cmd_def)
  from assms(2) show "restore_key s' = restore_key s"
    and "p_existing_backup_val s' = p_existing_backup_val s"
    and "p_is_remote s' = p_is_remote s"
    by (auto simp: set_backed_up_def Let_def restore_key_def split: prod.splits sum.splits)
qed

lemma init_fields:
  "config (SnapperSnapshot_init c i) = c"
  "info (SnapperSnapshot_init c i) = i"
  "p_cleanup (SnapperSnapshot_init c i) = cleanup i"
  "p_is_remote (SnapperSnapshot_init c i) = startswith (repopath c) ''ssh://''"
  "get_number (SnapperSnapshot_init c i) = number i"
  "restore_key (SnapperSnapshot_init c i) = (name c, number i, cleanup i)"
  by (simp_all add: SnapperSnapshot_init_def Let_def get_number_def restore_key_def del: replace.simps)

lemma true_to_local_Cons_other:
  assumes "true_to_local s = x # y" and "x \<noteq> CHR ''l''"
  shows "\<exists>s'. s = x # s' \<and> true_to_local s' = y"
proof (cases s)
  case Nil
  with assms show ?thesis by simp
next
  case (Cons c cs)
  show ?thesis
  proof (cases "startswith (c # cs) ''true''")
    case True
    with assms Cons show ?thesis by simp
  next
    case False
    with assms Cons show ?thesis by simp
  qed
qed

lemma append_eq_skip:
  "CHR ''t'' \<notin> set p \<Longrightarrow> p @ x = a @ ''true'' @ b \<Longrightarrow> \<exists>a'. a = p @ a' \<and> x = a' @ ''true'' @ b"
proof (induction p arbitrary: a)
  case Nil
  then show ?case by simp
next
  case (Cons y p)
  show ?case
  proof (cases a)
    case Nil
    with Cons.prems show ?thesis by simp
  next
    case (Cons z a'')
    with Cons.prems Cons.IH [of a''] show ?thesis by simp
  qed
qed

lemma true_to_local_no_true: "true_to_local s \<noteq> a @ ''true'' @ b"
proof (induction "''true''" "''local''" s arbitrary: a rule: replace.induct)
  case 1
  show ?case by simp
next
  case (2 c cs)
  show ?case
  proof (cases "startswith (c # cs) ''true''")
    case True
    then obtain r where r: "c # cs = ''true'' @ r" by (auto simp: startswith_true)
    then have dr: "drop (length ''true'') (c # cs) = r" by simp
    have ih: "\<And>a. true_to_local r \<noteq> a @ ''true'' @ b"
      using 2(2) True dr by simp
    show ?thesis
    proof
      assume "true_to_local (c # cs) = a @ ''true'' @ b"
      then have "''local'' @ true_to_local r = a @ ''true'' @ b"
        unfolding r replace_true_hit .
      then obtain a' where "true_to_local r = a' @ ''true'' @ b"
        using append_eq_skip [of "''local''"] by fastforce
      with ih show False by blast
    qed
  next
    case False
    have ih: "\<And>a. true_to_local cs \<noteq> a @ ''true'' @ b"
      using 2(3) False by simp
    have n: "true_to_local (c # cs) = c # true_to_local cs"
      using False by (rule replace_true_miss)
    show ?thesis
    proof
      assume "true_to_local (c # cs) = a @ ''true'' @ b"
      then have eq: "c # true_to_local cs = a @ ''true'' @ b" unfolding n .
      show False
      proof (cases a)
        case Nil
        with eq have c: "c = CHR ''t''" and 1: "true_to_local cs = CHR ''r'' # ''ue'' @ b" by simp_all
        from true_to_local_Cons_other [OF 1] obtain s1 where s1: "cs = CHR ''r'' # s1"
          and 2: "true_to_local s1 = CHR ''u'' # ''e'' @ b" by auto
        from true_to_local_Cons_other [OF 2] obtain s2 where s2: "s1 = CHR ''u'' # s2"
          and 3: "true_to_local s2 = CHR ''e'' # b" by auto
        from true_to_local_Cons_other [OF 3] obtain s3 where s3: "s2 = CHR ''e'' # s3" by auto
        from c s1 s2 s3 have "startswith (c # cs) ''true''" by (simp add: startswith_def)
        with False show False ..
      next
        case (Cons z a')
        with eq have "true_to_local cs = a' @ ''true'' @ b" by simp
        with ih show False by blast
      qed
    qed
  qed
qed

text \<open>
  C10. The existing value a snapshot keeps at construction is the stored tag with every
  occurrence of \<^verbatim>\<open>true\<close> replaced by \<^verbatim>\<open>local\<close>: it is the result of \<^verbatim>\<open>replace\<close> on the
  stored tag (splitting at colons and joining again gives the string back) and no
  occurrence of \<^verbatim>\<open>true\<close> is left in it. The version check having passed,
  \<^verbatim>\<open>set_backed_up\<close> issues that value joined by a colon with the token of the
  destination class, or the token alone when the value is empty.
\<close>

theorem set_backed_up_normalised:
  assumes "snapper_version_ok w"
    and "set_backed_up env (SnapperSnapshot_init c i) d w = (r, s', w')"
  shows "p_existing_backup_val (SnapperSnapshot_init c i) = true_to_local (stored_backup_val i)
    \<and> (\<forall>a b. true_to_local (stored_backup_val i) \<noteq> a @ ''true'' @ b)
    \<and> issued d w' = issued d w @
        [userdata_cmd (name c) (number i)
           (if true_to_local (stored_backup_val i) = [] then token c
            else true_to_local (stored_backup_val i) @ '':'' @ token c)]"
  using set_backed_up_issued(1) [OF assms] true_to_local_no_true
  by (simp add: init_existing init_fields token_def del: replace.simps)

text \<open>
  The statement above at the stored tag \<^verbatim>\<open>untrue\<close>, a foreign token: the tag issued is
  \<^verbatim>\<open>unlocal:local\<close>.
\<close>

theorem set_backed_up_normalised_witness:
  "snapper_version_ok w_checked
   \<and> stored_backup_val (with_tag info_A ''untrue'') = ''untrue''
   \<and> issued False (snd (snd (set_backed_up env_quiet
         (SnapperSnapshot_init cfg_local (with_tag info_A ''untrue'')) False w_checked)))
       = [[''snapper'', ''-c'', ''root'', ''--jsonout'', ''modify'', ''--userdata'',
           ''snapborg_backup=unlocal:local'', ''1'']]"
proof -
  have v: "snapper_version_ok w_checked" by (simp add: w_checked_def)
  have run: "set_backed_up env_quiet (SnapperSnapshot_init cfg_local (with_tag info_A ''untrue''))
        False w_checked =
      (fst (set_backed_up env_quiet (SnapperSnapshot_init cfg_local (with_tag info_A ''untrue''))
        False w_checked),
       fst (snd (set_backed_up env_quiet (SnapperSnapshot_init cfg_local (with_tag info_A ''untrue''))
        False w_checked)),
       snd (snd (set_backed_up env_quiet (SnapperSnapshot_init cfg_local (with_tag info_A ''untrue''))
        False w_checked)))"
    by simp
  from set_backed_up_normalised [OF v run] v show ?thesis
    by (simp add: example_defs startswith_def str_int_def str_nat.simps digit_char_def
        args_new_def stored_backup_val_def issued_def userdata_cmd_def token_def)
qed

section \<open>Snapshots without a tag\<close>

lemma stored_backup_val_null: "stored_backup_val (i\<lparr>userdata := None\<rparr>) = []"
  by (simp add: stored_backup_val_def)

lemma stored_backup_val_empty: "stored_backup_val (i\<lparr>userdata := Some []\<rparr>) = []"
  by (simp add: stored_backup_val_def)

lemma stored_backup_val_with_tag: "stored_backup_val (with_tag i v) = v"
  by (simp add: stored_backup_val_def with_tag_def)

lemma init_untagged:
  assumes "stored_backup_val i = []"
  shows "\<not> p_is_backed_up (SnapperSnapshot_init c i)"
    and "p_existing_backup_val (SnapperSnapshot_init c i) = []"
  using assms by (simp_all add: SnapperSnapshot_init_def Let_def)

lemma set_backed_up_untagged:
  assumes "snapper_version_ok w" and "stored_backup_val i = []"
    and "set_backed_up env (SnapperSnapshot_init c i) d w = (r, s', w')"
  shows "issued d w' = issued d w @ [userdata_cmd (name c) (number i) (token c)]"
  using set_backed_up_issued(1) [OF assms(1,3)] init_untagged(2) [OF assms(2)]
  by (simp add: init_fields token_def del: replace.simps)

lemma set_backed_up_same_tag:
  assumes "p_existing_backup_val a = p_existing_backup_val b"
    and "p_is_remote a = p_is_remote b" and "get_number a = get_number b"
    and "name (config a) = name (config b)"
  shows "fst (set_backed_up env a d w) = fst (set_backed_up env b d w)"
    and "snd (snd (set_backed_up env a d w)) = snd (snd (set_backed_up env b d w))"
  using assms by (simp_all add: set_backed_up_def Let_def split: prod.splits sum.splits)

text \<open>
  C9. Let \<open>a\<close> be constructed from an entry whose \<^verbatim>\<open>userdata\<close> is \<^verbatim>\<open>null\<close> and \<open>b\<close> from
  the same entry with the empty mapping, for any configuration (so for both destination
  classes). Neither is backed up, both keep the empty existing value, and they agree on
  every attribute a method reads; \<^verbatim>\<open>set_backed_up\<close> has the same outcome and leaves the
  same world on both and, the version check having passed, issues the tag that is the
  token of the destination class alone.
\<close>

theorem null_userdata_as_empty:
  assumes "snapper_version_ok w"
    and "a = SnapperSnapshot_init c (i\<lparr>userdata := None\<rparr>)"
    and "b = SnapperSnapshot_init c (i\<lparr>userdata := Some []\<rparr>)"
  shows "\<not> is_backed_up a \<and> \<not> is_backed_up b
    \<and> p_existing_backup_val a = [] \<and> p_existing_backup_val b = []
    \<and> p_is_remote a = p_is_remote b \<and> p_cleanup a = p_cleanup b
    \<and> config a = config b \<and> get_number a = get_number b
    \<and> fst (set_backed_up env a d w) = fst (set_backed_up env b d w)
    \<and> snd (snd (set_backed_up env a d w)) = snd (snd (set_backed_up env b d w))
    \<and> issued d (snd (snd (set_backed_up env a d w)))
        = issued d w @ [userdata_cmd (name c) (number i) (token c)]
    \<and> issued d (snd (snd (set_backed_up env b d w)))
        = issued d w @ [userdata_cmd (name c) (number i) (token c)]"
proof -
  have na: "stored_backup_val (i\<lparr>userdata := None\<rparr>) = []" by (rule stored_backup_val_null)
  have nb: "stored_backup_val (i\<lparr>userdata := Some []\<rparr>) = []" by (rule stored_backup_val_empty)
  have ea: "p_existing_backup_val a = []" and eb: "p_existing_backup_val b = []"
    unfolding assms(2,3) using init_untagged(2) na nb by blast+
  have fa: "\<not> is_backed_up a" and fb: "\<not> is_backed_up b"
    unfolding assms(2,3) is_backed_up_def using init_untagged(1) na nb by blast+
  have same: "p_is_remote a = p_is_remote b" "p_cleanup a = p_cleanup b" "config a = config b"
    "get_number a = get_number b"
    unfolding assms(2,3) by (simp_all add: init_fields)
  have ra: "set_backed_up env a d w = (fst (set_backed_up env a d w),
      fst (snd (set_backed_up env a d w)), snd (snd (set_backed_up env a d w)))" by simp
  have rb: "set_backed_up env b d w = (fst (set_backed_up env b d w),
      fst (snd (set_backed_up env b d w)), snd (snd (set_backed_up env b d w)))" by simp
  have ia: "issued d (snd (snd (set_backed_up env a d w)))
        = issued d w @ [userdata_cmd (name c) (number i) (token c)]"
    using set_backed_up_untagged [OF assms(1) na ra [unfolded assms(2)]]
    unfolding assms(2) by simp
  have ib: "issued d (snd (snd (set_backed_up env b d w)))
        = issued d w @ [userdata_cmd (name c) (number i) (token c)]"
    using set_backed_up_untagged [OF assms(1) nb rb [unfolded assms(3)]]
    unfolding assms(3) by simp
  have eq: "fst (set_backed_up env a d w) = fst (set_backed_up env b d w)"
    "snd (snd (set_backed_up env a d w)) = snd (snd (set_backed_up env b d w))"
    using set_backed_up_same_tag [of a b env d w] ea eb same by simp_all
  from fa fb ea eb same eq ia ib show ?thesis by simp
qed

lemmas eval_defs =
  example_defs startswith_def str_int_def str_nat.simps digit_char_def check_output_def
  check_snapper_def args_new_def run_snapper_def stored_backup_val_def
  SnapperSnapshot_init_def is_backed_up_def get_number_def issued_def cleanup_cmd_def
  userdata_cmd_def token_def Let_def

text \<open>The statement above for snapshot 1 and a remote destination.\<close>

theorem null_userdata_as_empty_witness:
  "snapper_version_ok w_checked
   \<and> \<not> is_backed_up (SnapperSnapshot_init cfg_remote (info_A\<lparr>userdata := None\<rparr>))
   \<and> \<not> is_backed_up (SnapperSnapshot_init cfg_remote (info_A\<lparr>userdata := Some []\<rparr>))
   \<and> issued False (snd (snd (set_backed_up env_quiet
         (SnapperSnapshot_init cfg_remote (info_A\<lparr>userdata := None\<rparr>)) False w_checked)))
       = [[''snapper'', ''-c'', ''root'', ''--jsonout'', ''modify'', ''--userdata'',
           ''snapborg_backup=remote'', ''1'']]
   \<and> issued False (snd (snd (set_backed_up env_quiet
         (SnapperSnapshot_init cfg_remote (info_A\<lparr>userdata := Some []\<rparr>)) False w_checked)))
       = [[''snapper'', ''-c'', ''root'', ''--jsonout'', ''modify'', ''--userdata'',
           ''snapborg_backup=remote'', ''1'']]"
proof -
  have v: "snapper_version_ok w_checked" by (simp add: w_checked_def)
  from null_userdata_as_empty [OF v refl refl, of cfg_remote info_A env_quiet False] v show ?thesis
    by (simp add: example_defs startswith_def str_int_def str_nat.simps digit_char_def
        args_new_def issued_def userdata_cmd_def token_def)
qed

text \<open>
  C3 as stated fails: two successive calls of \<^verbatim>\<open>set_backed_up\<close> on one snapshot object
  constructed without a tag both succeed, and the second one issues the tag \<^verbatim>\<open>local\<close>,
  not \<^verbatim>\<open>local:local\<close>.
\<close>

theorem set_backed_up_twice_counterexample:
  "(case set_backed_up env_quiet (SnapperSnapshot_init cfg_local info_A) False w_checked of
      (r1, s1, w1) \<Rightarrow>
        (case set_backed_up env_quiet s1 False w1 of
           (r2, s2, w2) \<Rightarrow> (r1, r2, invocations w2)))
   = (Inr (), Inr (),
      [[''snapper'', ''-c'', ''root'', ''--jsonout'', ''modify'', ''--userdata'',
        ''snapborg_backup=local'', ''1''],
       [''snapper'', ''-c'', ''root'', ''--jsonout'', ''modify'', ''--userdata'',
        ''snapborg_backup=local'', ''1'']])"
  by (simp add: eval_defs set_backed_up_def)

text \<open>
  C3 (amended). For a snapshot constructed with no backup tag and a local destination
  (the version check having passed), the first \<^verbatim>\<open>set_backed_up\<close> issues the tag
  \<^verbatim>\<open>local\<close>; a second call on the same object issues \<^verbatim>\<open>local\<close> again, because the
  existing value kept at construction is not assigned by \<^verbatim>\<open>set_backed_up\<close>; the tag
  \<^verbatim>\<open>local:local\<close> is issued by \<^verbatim>\<open>set_backed_up\<close> on a snapshot constructed from the
  entry whose stored tag is \<^verbatim>\<open>local\<close>.
\<close>

theorem set_backed_up_twice:
  assumes "snapper_version_ok w"
    and "stored_backup_val i = []"
    and "\<not> startswith (repopath c) ''ssh://''"
    and "set_backed_up env (SnapperSnapshot_init c i) False w = (r1, s1, w1)"
    and "set_backed_up env s1 False w1 = (r2, s2, w2)"
    and "set_backed_up env (SnapperSnapshot_init c (with_tag i ''local'')) False w2 = (r3, s3, w3)"
  shows "invocations w1 = invocations w @ [userdata_cmd (name c) (number i) ''local'']
    \<and> invocations w2 = invocations w1 @ [userdata_cmd (name c) (number i) ''local'']
    \<and> invocations w3 = invocations w2 @ [userdata_cmd (name c) (number i) ''local:local'']"
proof -
  have tok: "token c = ''local''" using assms(3) by (simp add: token_def)
  from set_backed_up_untagged [OF assms(1,2,4)] tok
  have 1: "invocations w1 = invocations w @ [userdata_cmd (name c) (number i) ''local'']"
    by (simp add: issued_def)
  have v1: "snapper_version_ok w1" by (rule set_backed_up_issued(2) [OF assms(1,4)])
  have e1: "p_existing_backup_val s1 = []"
    using set_backed_up_issued(4) [OF assms(1,4)] init_untagged(2) [OF assms(2)] by simp
  have k1: "restore_key s1 = (name c, number i, cleanup i)"
    using set_backed_up_issued(3) [OF assms(1,4)] by (simp add: init_fields)
  have r1: "p_is_remote s1 = False"
    using set_backed_up_issued(5) [OF assms(1,4)] assms(3) by (simp add: init_fields)
  from set_backed_up_issued(1) [OF v1 assms(5)] e1 k1 r1
  have 2: "invocations w2 = invocations w1 @ [userdata_cmd (name c) (number i) ''local'']"
    by (simp add: issued_def restore_key_def get_number_def)
  have v2: "snapper_version_ok w2" by (rule set_backed_up_issued(2) [OF v1 assms(5)])
  have t3: "true_to_local (stored_backup_val (with_tag i ''local'')) = ''local''"
    unfolding stored_backup_val_with_tag by (simp add: startswith_def)
  from set_backed_up_issued(1) [OF v2 assms(6)] assms(3)
  have 3: "invocations w3 = invocations w2 @ [userdata_cmd (name c) (number i) ''local:local'']"
    unfolding init_existing init_fields t3 by (simp add: issued_def with_tag_def)
  from 1 2 3 show ?thesis by simp
qed

text \<open>The three calls of the statement above on snapshot 1 of \<open>root\<close>.\<close>

theorem set_backed_up_twice_witness:
  "snapper_version_ok w_checked \<and> stored_backup_val info_A = []
   \<and> \<not> startswith (repopath cfg_local) ''ssh://''
   \<and> (case set_backed_up env_quiet (SnapperSnapshot_init cfg_local info_A) False w_checked of
        (r1, s1, w1) \<Rightarrow>
          (case set_backed_up env_quiet s1 False w1 of
             (r2, s2, w2) \<Rightarrow>
               (case set_backed_up env_quiet
                       (SnapperSnapshot_init cfg_local (with_tag info_A ''local'')) False w2 of
                  (r3, s3, w3) \<Rightarrow> invocations w3)))
     = [[''snapper'', ''-c'', ''root'', ''--jsonout'', ''modify'', ''--userdata'',
         ''snapborg_backup=local'', ''1''],
        [''snapper'', ''-c'', ''root'', ''--jsonout'', ''modify'', ''--userdata'',
         ''snapborg_backup=local'', ''1''],
        [''snapper'', ''-c'', ''root'', ''--jsonout'', ''modify'', ''--userdata'',
         ''snapborg_backup=local:local'', ''1'']]"
proof -
  have v: "snapper_version_ok w_checked" by (simp add: w_checked_def)
  have t: "stored_backup_val info_A = []" by (simp add: stored_backup_val_def info_A_def)
  have l: "\<not> startswith (repopath cfg_local) ''ssh://''"
    by (simp add: startswith_def cfg_local_def)
  obtain r1 s1 w1 where 1:
    "set_backed_up env_quiet (SnapperSnapshot_init cfg_local info_A) False w_checked = (r1, s1, w1)"
    by (rule prod_cases3)
  obtain r2 s2 w2 where 2: "set_backed_up env_quiet s1 False w1 = (r2, s2, w2)"
    by (rule prod_cases3)
  obtain r3 s3 w3 where 3:
    "set_backed_up env_quiet (SnapperSnapshot_init cfg_local (with_tag info_A ''local'')) False w2
      = (r3, s3, w3)"
    by (rule prod_cases3)
  have res: "(case set_backed_up env_quiet (SnapperSnapshot_init cfg_local info_A) False w_checked of
        (r1, s1, w1) \<Rightarrow>
          (case set_backed_up env_quiet s1 False w1 of
             (r2, s2, w2) \<Rightarrow>
               (case set_backed_up env_quiet
                       (SnapperSnapshot_init cfg_local (with_tag info_A ''local'')) False w2 of
                  (r3, s3, w3) \<Rightarrow> invocations w3))) = invocations w3"
    by (simp add: 1 2 3)
  have "invocations w3 = [userdata_cmd (name cfg_local) (number info_A) ''local'',
      userdata_cmd (name cfg_local) (number info_A) ''local'',
      userdata_cmd (name cfg_local) (number info_A) ''local:local'']"
    using set_backed_up_twice [OF v t l 1 2 3] by (simp add: w_checked_def)
  then have "invocations w3 =
       [[''snapper'', ''-c'', ''root'', ''--jsonout'', ''modify'', ''--userdata'',
         ''snapborg_backup=local'', ''1''],
        [''snapper'', ''-c'', ''root'', ''--jsonout'', ''modify'', ''--userdata'',
         ''snapborg_backup=local'', ''1''],
        [''snapper'', ''-c'', ''root'', ''--jsonout'', ''modify'', ''--userdata'',
         ''snapborg_backup=local:local'', ''1'']]"
    by (simp add: userdata_cmd_def args_new_def str_int_def str_nat.simps digit_char_def
        cfg_local_def info_A_def)
  with res v t l show ?thesis by (simp only: simp_thms)
qed

section \<open>Restoring the cleanup algorithm\<close>

lemma prevent_all_version_ok:
  "snapper_version_ok w \<Longrightarrow> snapper_version_ok (snd (prevent_all env ss d w))"
proof (induction ss arbitrary: w)
  case Nil
  then show ?case by simp
next
  case (Cons s ss)
  obtain r1 w1 where r1: "SnapperSnapshot_prevent_cleanup env s d w = (r1, w1)"
    by (cases "SnapperSnapshot_prevent_cleanup env s d w")
  from prevent_cleanup_issued(2) [OF Cons.prems r1] have "snapper_version_ok w1" .
  with Cons.IH [of w1] r1 show ?case by (cases r1) simp_all
qed

lemma prevent_all_dry:
  "snapper_version_ok w \<Longrightarrow> fst (prevent_all env ss True w) = Inr ()"
proof (induction ss arbitrary: w)
  case Nil
  then show ?case by simp
next
  case (Cons s ss)
  have "SnapperSnapshot_prevent_cleanup env s True w =
      (Inr (), w\<lparr>printed := printed w @
         [args_new [''modify'', ''--cleanup-algorithm'', [], str_int (get_number s)]
            (Some (name (config s)))]\<rparr>)"
    using Cons.prems by (simp add: SnapperSnapshot_prevent_cleanup_def run_snapper_dry)
  with Cons.IH Cons.prems show ?case by simp
qed

lemma restore_all_dry:
  "snapper_version_ok w \<Longrightarrow> fst (restore_all env ss True w) = Inr ()"
proof (induction ss arbitrary: w)
  case Nil
  then show ?case by simp
next
  case (Cons s ss)
  have "restore_cleanup_state env s True w =
      (Inr (), w\<lparr>printed := printed w @
         [args_new [''modify'', ''--cleanup-algorithm'', p_cleanup s, str_int (get_number s)]
            (Some (name (config s)))]\<rparr>)"
    using Cons.prems by (simp add: restore_cleanup_state_def run_snapper_dry)
  with Cons.IH Cons.prems show ?case by simp
qed

text \<open>
  C6. For a snapshot constructed from an entry, after any number \<open>n\<close> of
  \<^verbatim>\<open>prevent_cleanup\<close> calls on it (the version check having passed), the command that
  \<^verbatim>\<open>restore_cleanup_state\<close> issues sets the cleanup algorithm of that snapshot to
  \<^verbatim>\<open>info["cleanup"]\<close>, the value kept at construction, whatever that string is.
\<close>

theorem restore_writes_original:
  assumes "snapper_version_ok w"
    and "prevent_all env (replicate n (SnapperSnapshot_init c i)) d w = (r1, w1)"
    and "restore_cleanup_state env (SnapperSnapshot_init c i) d w1 = (r2, w2)"
  shows "p_cleanup (SnapperSnapshot_init c i) = cleanup i
    \<and> issued d w2 = issued d w1 @ [cleanup_cmd (name c) (number i) (cleanup i)]"
proof -
  have "snapper_version_ok w1"
    using prevent_all_version_ok [OF assms(1), of env "replicate n (SnapperSnapshot_init c i)" d]
    unfolding assms(2) by simp
  from restore_cleanup_issued(1) [OF this assms(3)] show ?thesis
    by (simp add: init_fields)
qed

text \<open>
  The statement above for snapshot 3, whose cleanup algorithm is the empty string, after
  two disable calls.
\<close>

theorem restore_writes_original_witness:
  "snapper_version_ok w_checked
   \<and> cleanup info_C = []
   \<and> invocations (snd (restore_cleanup_state env_quiet (SnapperSnapshot_init cfg_local info_C) False
        (snd (prevent_all env_quiet (replicate 2 (SnapperSnapshot_init cfg_local info_C)) False
           w_checked))))
     = [[''snapper'', ''-c'', ''root'', ''--jsonout'', ''modify'', ''--cleanup-algorithm'', [], ''3''],
        [''snapper'', ''-c'', ''root'', ''--jsonout'', ''modify'', ''--cleanup-algorithm'', [], ''3''],
        [''snapper'', ''-c'', ''root'', ''--jsonout'', ''modify'', ''--cleanup-algorithm'', [], ''3'']]"
proof -
  have v: "snapper_version_ok w_checked" by (simp add: w_checked_def)
  obtain r1 w1 where 1:
    "prevent_all env_quiet (replicate 2 (SnapperSnapshot_init cfg_local info_C)) False w_checked
      = (r1, w1)"
    by (rule prod.exhaust)
  obtain r2 w2 where 2:
    "restore_cleanup_state env_quiet (SnapperSnapshot_init cfg_local info_C) False w1 = (r2, w2)"
    by (rule prod.exhaust)
  have w1: "invocations w1 =
     [[''snapper'', ''-c'', ''root'', ''--jsonout'', ''modify'', ''--cleanup-algorithm'', [], ''3''],
      [''snapper'', ''-c'', ''root'', ''--jsonout'', ''modify'', ''--cleanup-algorithm'', [], ''3'']]"
    using 1 [symmetric]
    by (simp add: eval_defs SnapperSnapshot_prevent_cleanup_def numeral_2_eq_2)
  have res: "snd (restore_cleanup_state env_quiet (SnapperSnapshot_init cfg_local info_C) False
        (snd (prevent_all env_quiet (replicate 2 (SnapperSnapshot_init cfg_local info_C)) False
           w_checked))) = w2"
    by (simp add: 1 2)
  have "invocations w2 = invocations w1 @ [cleanup_cmd (name cfg_local) (number info_C) (cleanup info_C)]"
    using restore_writes_original [OF v 1 2] by (simp add: issued_def)
  then have "invocations w2 =
     [[''snapper'', ''-c'', ''root'', ''--jsonout'', ''modify'', ''--cleanup-algorithm'', [], ''3''],
      [''snapper'', ''-c'', ''root'', ''--jsonout'', ''modify'', ''--cleanup-algorithm'', [], ''3''],
      [''snapper'', ''-c'', ''root'', ''--jsonout'', ''modify'', ''--cleanup-algorithm'', [], ''3'']]"
    unfolding w1
    by (simp add: cleanup_cmd_def args_new_def str_int_def str_nat.simps digit_char_def
        cfg_local_def info_C_def)
  moreover have "cleanup info_C = []" by (simp add: info_C_def)
  ultimately show ?thesis using v unfolding res by (simp only: simp_thms)
qed

section \<open>The guard\<close>

text \<open>
  C2. Let the guarded snapshots be the ones constructed from the entries \<open>infos\<close> of a
  configuration, let the entry loop pass, and let the block raise \<open>e\<close>, leaving alone what the
  restore loop reads of each snapshot (configuration name, number and the cleanup
  algorithm kept at construction; no method of the class assigns them) and leaving the
  version check passed. When the restore loop completes, the guard ends with the block's
  error \<open>e\<close>, the entry loop has issued one disable command per entry in the order of
  \<open>infos\<close>, and the restore loop has issued, after everything the block did, one command
  per entry in the same order, each carrying \<^verbatim>\<open>info["cleanup"]\<close> of its entry.
\<close>

theorem guard_body_error:
  assumes "snapper_version_ok w"
    and "ss = map (SnapperSnapshot_init c) infos"
    and "prevent_all env ss dryrun w = (Inr (), w2)"
    and "body ss w2 = (Inl e, ss', w3)"
    and "map restore_key ss' = map restore_key ss"
    and "snapper_version_ok w3"
    and "restore_all env ss' dryrun w3 = (Inr (), w4)"
  shows "SnapperConfig_prevent_cleanup env self (Some ss) dryrun body w = (Inl e, self, ss', w4)
    \<and> issued dryrun w2 = issued dryrun w @ map (\<lambda>i. cleanup_cmd (name c) (number i) []) infos
    \<and> issued dryrun w4
        = issued dryrun w3 @ map (\<lambda>i. cleanup_cmd (name c) (number i) (cleanup i)) infos"
proof -
  have guard: "SnapperConfig_prevent_cleanup env self (Some ss) dryrun body w = (Inl e, self, ss', w4)"
    by (simp add: SnapperConfig_prevent_cleanup_def assms(3,4,7))
  have entry: "issued dryrun w2 = issued dryrun w @ map (\<lambda>i. cleanup_cmd (name c) (number i) []) infos"
    using prevent_all_issued [OF assms(1,3)] unfolding assms(2)
    by (simp add: comp_def init_fields)
  have "restore_all env ss dryrun w3 = (Inr (), w4)"
    using restore_all_cong [OF assms(5)] assms(7) by simp
  from restore_all_issued [OF assms(6) this]
  have exit: "issued dryrun w4
      = issued dryrun w3 @ map (\<lambda>i. cleanup_cmd (name c) (number i) (cleanup i)) infos"
    unfolding assms(2) by (simp add: comp_def init_fields)
  from guard entry exit show ?thesis by simp
qed

lemmas run_defs =
  eval_defs set_backed_up_def SnapperSnapshot_prevent_cleanup_def restore_cleanup_state_def
  purge_userdata_def restore_key_def

text \<open>
  The scenario of the specification: snapshots 1, 2, 3 with cleanup algorithms
  \<^verbatim>\<open>number-cleanup\<close>, \<^verbatim>\<open>timeline\<close> and the empty string, and a block that marks the
  first snapshot and then raises.
\<close>

theorem guard_body_error_witness:
  "snapper_version_ok w_checked
   \<and> (case SnapperConfig_prevent_cleanup env_quiet config_root
             (Some (map (SnapperSnapshot_init cfg_local) [info_A, info_B, info_C])) False
             body_mark_then_raise w_checked of
        (r, self', ss', w') \<Rightarrow> (r, map is_backed_up ss', invocations w'))
     = (Inl (OtherError ''archive failed''), [True, False, False],
        [[''snapper'', ''-c'', ''root'', ''--jsonout'', ''modify'', ''--cleanup-algorithm'', [], ''1''],
         [''snapper'', ''-c'', ''root'', ''--jsonout'', ''modify'', ''--cleanup-algorithm'', [], ''2''],
         [''snapper'', ''-c'', ''root'', ''--jsonout'', ''modify'', ''--cleanup-algorithm'', [], ''3''],
         [''snapper'', ''-c'', ''root'', ''--jsonout'', ''modify'', ''--userdata'',
          ''snapborg_backup=local'', ''1''],
         [''snapper'', ''-c'', ''root'', ''--jsonout'', ''modify'', ''--cleanup-algorithm'',
          ''number-cleanup'', ''1''],
         [''snapper'', ''-c'', ''root'', ''--jsonout'', ''modify'', ''--cleanup-algorithm'',
          ''timeline'', ''2''],
         [''snapper'', ''-c'', ''root'', ''--jsonout'', ''modify'', ''--cleanup-algorithm'', [], ''3'']])"
proof -
  let ?D = "\<lambda>n. [''snapper'', ''-c'', ''root'', ''--jsonout'', ''modify'', ''--cleanup-algorithm'', [], n]"
  let ?R = "\<lambda>v n. [''snapper'', ''-c'', ''root'', ''--jsonout'', ''modify'', ''--cleanup-algorithm'', v, n]"
  let ?U = "[''snapper'', ''-c'', ''root'', ''--jsonout'', ''modify'', ''--userdata'',
          ''snapborg_backup=local'', ''1'']"
  let ?ss = "map (SnapperSnapshot_init cfg_local) [info_A, info_B, info_C]"
  let ?ss' = "(SnapperSnapshot_init cfg_local info_A)\<lparr>p_is_backed_up := True\<rparr>
      # map (SnapperSnapshot_init cfg_local) [info_B, info_C]"
  let ?w2 = "\<lparr>snapper_version_ok = True, invocations = [?D ''1'', ?D ''2'', ?D ''3''], printed = []\<rparr>"
  let ?w3 = "\<lparr>snapper_version_ok = True, invocations = [?D ''1'', ?D ''2'', ?D ''3'', ?U],
      printed = []\<rparr>"
  let ?w4 = "\<lparr>snapper_version_ok = True, invocations = [?D ''1'', ?D ''2'', ?D ''3'', ?U,
      ?R ''number-cleanup'' ''1'', ?R ''timeline'' ''2'', ?R [] ''3''], printed = []\<rparr>"
  have v: "snapper_version_ok w_checked" by (simp add: w_checked_def)
  have entry: "prevent_all env_quiet ?ss False w_checked = (Inr (), ?w2)"
    by (simp add: run_defs)
  have body: "body_mark_then_raise ?ss ?w2 = (Inl (OtherError ''archive failed''), ?ss', ?w3)"
    by (simp add: run_defs)
  have keep: "map restore_key ?ss' = map restore_key ?ss"
    by (simp add: restore_key_def SnapperSnapshot_init_def Let_def)
  have v3: "snapper_version_ok ?w3" by simp
  have exit: "restore_all env_quiet ?ss' False ?w3 = (Inr (), ?w4)"
    by (simp add: run_defs)
  have flags: "map is_backed_up ?ss' = [True, False, False]"
    by (simp add: run_defs)
  from guard_body_error [where c = cfg_local and infos = "[info_A, info_B, info_C]" and self = config_root
      and body = body_mark_then_raise and env = env_quiet and dryrun = False and ss = ?ss,
      OF v refl entry body keep v3 exit]
  have "SnapperConfig_prevent_cleanup env_quiet config_root (Some ?ss) False body_mark_then_raise
      w_checked = (Inl (OtherError ''archive failed''), config_root, ?ss', ?w4)"
    by (rule conjunct1)
  with v flags show ?thesis by (simp only: prod.case world.simps simp_thms)
qed

text \<open>
  C1 as stated fails. With three guarded snapshots and a tool that fails on the second
  disable command, the guard ends with that error after two commands, both disable
  commands: \<^verbatim>\<open>restore_cleanup_state\<close> was called for none of the three snapshots, and
  the first snapshot stays without its cleanup algorithm \<^verbatim>\<open>number-cleanup\<close>.
\<close>

theorem guard_entry_failure_counterexample:
  "(case SnapperConfig_prevent_cleanup env_fail_second config_root
           (Some (map (SnapperSnapshot_init cfg_local) [info_A, info_B, info_C])) False
           body_pass w_checked of
      (r, self', ss', w') \<Rightarrow> (r, invocations w', printed w'))
   = (Inl CalledProcessError,
      [[''snapper'', ''-c'', ''root'', ''--jsonout'', ''modify'', ''--cleanup-algorithm'', [], ''1''],
       [''snapper'', ''-c'', ''root'', ''--jsonout'', ''modify'', ''--cleanup-algorithm'', [], ''2'']],
      [])"
  by (simp add: run_defs SnapperConfig_prevent_cleanup_def)

lemma prevent_cleanup_other:
  assumes "snapper_version_ok w" and "SnapperSnapshot_prevent_cleanup env s d w = (r, w')"
  shows "issued (\<not> d) w' = issued (\<not> d) w"
proof -
  obtain r0 where "run_snapper env [''modify'', ''--cleanup-algorithm'', [], str_int (get_number s)]
       (Some (name (config s))) d w = (r0, w')"
    using assms(2) by (auto simp: SnapperSnapshot_prevent_cleanup_def split: prod.splits sum.splits)
  from run_snapper_issued(3) [OF assms(1) this] show ?thesis .
qed

lemma prevent_all_other:
  "snapper_version_ok w \<Longrightarrow> prevent_all env ss d w = (r, w') \<Longrightarrow>
   issued (\<not> d) w' = issued (\<not> d) w"
proof (induction ss arbitrary: w)
  case Nil
  then show ?case by simp
next
  case (Cons s ss)
  obtain r1 w1 where r1: "SnapperSnapshot_prevent_cleanup env s d w = (r1, w1)"
    by (cases "SnapperSnapshot_prevent_cleanup env s d w")
  note o = prevent_cleanup_other [OF Cons.prems(1) r1]
  note v = prevent_cleanup_issued(2) [OF Cons.prems(1) r1]
  show ?case
  proof (cases r1)
    case (Inl e1)
    with r1 Cons.prems(2) o show ?thesis by simp
  next
    case (Inr u1)
    with r1 Cons.prems(2) have "prevent_all env ss d w1 = (r, w')" by simp
    from Cons.IH [OF v this] o show ?thesis by simp
  qed
qed

text \<open>
  C1 (amended). When the entry loop of the guard raises (the version check having passed
  before), that error is the outcome of the guard at once: the world the guard leaves is the
  world the entry loop left, so neither the block nor the restore loop has run and no
  restore command was issued. The run was not a dry run, nothing was printed, and the
  commands executed since the guard was opened are exactly the disable commands of the
  first \<open>k + 1\<close> guarded snapshots, the last of them being the one that failed.
\<close>

theorem guard_entry_failure:
  assumes "snapper_version_ok w"
    and "prevent_all env ss dryrun w = (Inl e, w2)"
  shows "SnapperConfig_prevent_cleanup env self (Some ss) dryrun body w = (Inl e, self, ss, w2)
    \<and> \<not> dryrun
    \<and> (\<exists>k. k < length ss \<and>
          invocations w2 = invocations w @
            map (\<lambda>s. cleanup_cmd (name (config s)) (get_number s) []) (take (Suc k) ss))
    \<and> printed w2 = printed w"
proof -
  have guard: "SnapperConfig_prevent_cleanup env self (Some ss) dryrun body w = (Inl e, self, ss, w2)"
    by (simp add: SnapperConfig_prevent_cleanup_def assms(2))
  have real: "\<not> dryrun"
  proof
    assume "dryrun"
    with prevent_all_dry [OF assms(1), of env ss] assms(2) show False by simp
  qed
  from prevent_all_failed [OF assms] real
  have cmds: "\<exists>k. k < length ss \<and>
          invocations w2 = invocations w @
            map (\<lambda>s. cleanup_cmd (name (config s)) (get_number s) []) (take (Suc k) ss)"
    by (simp add: issued_def)
  have "printed w2 = printed w"
    using prevent_all_other [OF assms] real by (simp add: issued_def)
  with guard real cmds show ?thesis by simp
qed


text \<open>
  The statement above at a tool that fails on its second call, with three guarded
  snapshots: two disable commands, no restore command.
\<close>

theorem guard_entry_failure_witness:
  "snapper_version_ok w_checked
   \<and> prevent_all env_fail_second (map (SnapperSnapshot_init cfg_local) [info_A, info_B, info_C])
        False w_checked
      = (Inl CalledProcessError,
         \<lparr>snapper_version_ok = True, invocations =
            [[''snapper'', ''-c'', ''root'', ''--jsonout'', ''modify'', ''--cleanup-algorithm'', [], ''1''],
             [''snapper'', ''-c'', ''root'', ''--jsonout'', ''modify'', ''--cleanup-algorithm'', [], ''2'']],
           printed = []\<rparr>)
   \<and> SnapperConfig_prevent_cleanup env_fail_second config_root
        (Some (map (SnapperSnapshot_init cfg_local) [info_A, info_B, info_C])) False
        body_pass w_checked
      = (Inl CalledProcessError, config_root,
         map (SnapperSnapshot_init cfg_local) [info_A, info_B, info_C],
         \<lparr>snapper_version_ok = True, invocations =
            [[''snapper'', ''-c'', ''root'', ''--jsonout'', ''modify'', ''--cleanup-algorithm'', [], ''1''],
             [''snapper'', ''-c'', ''root'', ''--jsonout'', ''modify'', ''--cleanup-algorithm'', [], ''2'']],
           printed = []\<rparr>)"
proof -
  have v: "snapper_version_ok w_checked" by (simp add: w_checked_def)
  have entry: "prevent_all env_fail_second
        (map (SnapperSnapshot_init cfg_local) [info_A, info_B, info_C]) False w_checked
      = (Inl CalledProcessError,
         \<lparr>snapper_version_ok = True, invocations =
            [[''snapper'', ''-c'', ''root'', ''--jsonout'', ''modify'', ''--cleanup-algorithm'', [], ''1''],
             [''snapper'', ''-c'', ''root'', ''--jsonout'', ''modify'', ''--cleanup-algorithm'', [], ''2'']],
           printed = []\<rparr>)"
    by (simp add: run_defs)
  from guard_entry_failure [where self = config_root and body = body_pass, OF v entry] v entry
  show ?thesis by (simp only: simp_thms)
qed

section \<open>The snapshot list\<close>

lemma get_snapshots_cached:
  "p_snapshots self = Some (s # ss) \<Longrightarrow> get_snapshots env self w = (Inr (s # ss), self, w)"
  by (simp add: get_snapshots_def)

lemma get_snapshots_load:
  assumes "p_snapshots self = None" and "snapper_version_ok w"
    and "subprocess env (invocations w) (args_new [''list'', ''--disable-used-space''] (Some (name self)))
          = Inr out"
    and "strip env out \<noteq> []"
    and "json_loads env (strip env out) = Inr (JListing d)"
    and "map_of d (name self) = Some infos"
  shows "get_snapshots env self w =
    (Inr (map (SnapperSnapshot_init (core self)) (filter (\<lambda>i. number i \<noteq> 0) infos)),
     self\<lparr>p_snapshots :=
       Some (map (SnapperSnapshot_init (core self)) (filter (\<lambda>i. number i \<noteq> 0) infos))\<rparr>,
     w\<lparr>invocations := invocations w @
       [args_new [''list'', ''--disable-used-space''] (Some (name self))]\<rparr>)"
  using assms
  by (simp add: get_snapshots_def run_snapper_def check_output_def listing_def Let_def)

lemma get_snapshots_no_live:
  assumes "get_snapshots env self w = (Inr ss, self', w')" and "p_snapshots self = None"
  shows "0 \<notin> set (map get_number ss)"
  using assms
  by (auto simp: get_snapshots_def Let_def init_fields split: prod.splits sum.splits)

text \<open>
  C7 at a tool that lists the live entry (number 0) alone: the first call of
  \<^verbatim>\<open>get_snapshots\<close> queries the tool, returns the empty list and caches it; the second
  call queries the tool again, because the cached empty list is falsy.
\<close>

theorem get_snapshots_empty_cache:
  "(case get_snapshots env_live_only config_root w_checked of
      (r1, self1, w1) \<Rightarrow>
        (case get_snapshots env_live_only self1 w1 of
           (r2, self2, w2) \<Rightarrow> (r1, p_snapshots self1, invocations w1, r2, invocations w2)))
   = (Inr [], Some [],
      [[''snapper'', ''-c'', ''root'', ''--jsonout'', ''list'', ''--disable-used-space'']],
      Inr [],
      [[''snapper'', ''-c'', ''root'', ''--jsonout'', ''list'', ''--disable-used-space''],
       [''snapper'', ''-c'', ''root'', ''--jsonout'', ''list'', ''--disable-used-space'']])"
  by (simp add: run_defs get_snapshots_def listing_def core_def)

section \<open>Purging the tag\<close>

lemma init_after_purge: "\<not> is_backed_up (SnapperSnapshot_init c (with_tag i []))"
  unfolding is_backed_up_def
  by (rule init_untagged(1)) (rule stored_backup_val_with_tag)

text \<open>
  C4 at a snapshot whose stored tag is \<^verbatim>\<open>local\<close>, with a local destination:
  \<^verbatim>\<open>purge_userdata\<close> succeeds and issues the command that empties the tag, and
  \<^verbatim>\<open>is_backed_up\<close> of the snapshot is still true, since \<^verbatim>\<open>purge_userdata\<close> assigns no
  attribute.
\<close>

theorem purge_keeps_flag:
  "(case purge_userdata env_quiet (SnapperSnapshot_init cfg_local (with_tag info_A ''local''))
           False w_checked of
      (r, w') \<Rightarrow>
        (r, invocations w',
         is_backed_up (SnapperSnapshot_init cfg_local (with_tag info_A ''local''))))
   = (Inr (),
      [[''snapper'', ''-c'', ''root'', ''--jsonout'', ''modify'', ''--userdata'',
        ''snapborg_backup='', ''1'']],
      True)"
  by (simp add: run_defs)

section \<open>Dry runs\<close>

lemma check_snapper_invocations:
  "invocations (snd (check_snapper env w)) = invocations w @ [[''snapper'', ''--version'']]"
  by (simp add: check_snapper_def check_output_def split: sum.splits list.splits bool.splits)

lemma check_snapper_printed: "printed (snd (check_snapper env w)) = printed w"
  by (simp add: check_snapper_def check_output_def split: sum.splits list.splits bool.splits)

lemma run_snapper_dry_cases:
  "run_snapper env args conf True w =
     (case (if snapper_version_ok w then (Inr (), w) else check_snapper env w) of
        (Inl e, w1) \<Rightarrow> (Inl e, w1)
      | (Inr u, w1) \<Rightarrow>
          (Inr JNone, w1\<lparr>snapper_version_ok := True, printed := printed w1 @ [args_new args conf]\<rparr>))"
  by (auto simp: run_snapper_def split: prod.splits sum.splits)

lemma run_snapper_dry_facts:
  "invocations (snd (run_snapper env args conf True w))
     = invocations w @ (if snapper_version_ok w then [] else [[''snapper'', ''--version'']])"
  "(case run_snapper env args conf True w of
      (Inl e, w') \<Rightarrow> \<not> snapper_version_ok w \<and> printed w' = printed w
    | (Inr j, w') \<Rightarrow> j = JNone \<and> printed w' = printed w @ [args_new args conf]
        \<and> snapper_version_ok w')"
  using check_snapper_invocations [of env w] check_snapper_printed [of env w]
  unfolding run_snapper_dry_cases
  by (auto split: prod.splits sum.splits)

text \<open>
  C8 (amended). A dry-run call of \<^verbatim>\<open>run_snapper\<close> never executes the command it was
  given: the only call of the tool it can make is the version query, made exactly when the
  version check has not passed yet. When the call returns, it returns \<^verbatim>\<open>None\<close>, has
  printed the command and the check has passed; it raises only when the check had not
  passed before. A dry-run \<^verbatim>\<open>set_backed_up\<close> that returns leaves the backed-up flag true;
  when it raises, the check had not passed before and the snapshot is unchanged.
\<close>

theorem dry_run_contacts:
  "invocations (snd (run_snapper env args conf True w))
     = invocations w @ (if snapper_version_ok w then [] else [[''snapper'', ''--version'']])
   \<and> (case run_snapper env args conf True w of
        (Inl e, w') \<Rightarrow> \<not> snapper_version_ok w \<and> printed w' = printed w
      | (Inr j, w') \<Rightarrow> j = JNone \<and> printed w' = printed w @ [args_new args conf]
          \<and> snapper_version_ok w')
   \<and> (case set_backed_up env s True w of
        (Inl e, s', w') \<Rightarrow> \<not> snapper_version_ok w \<and> s' = s
      | (Inr u, s', w') \<Rightarrow> is_backed_up s')"
proof -
  define v where "v = (if p_existing_backup_val s \<noteq> []
       then p_existing_backup_val s @ '':'' @ (if p_is_remote s then ''remote'' else ''local'')
       else (if p_is_remote s then ''remote'' else ''local''))"
  let ?args = "[''modify'', ''--userdata'', ''snapborg_backup='' @ v, str_int (get_number s)]"
  have unfold: "set_backed_up env s True w =
      (case run_snapper env ?args (Some (name (config s))) True w of
         (Inl e, w') \<Rightarrow> (Inl e, s, w')
       | (Inr j, w') \<Rightarrow> (Inr (), s\<lparr>p_is_backed_up := True\<rparr>, w'))"
    unfolding set_backed_up_def Let_def v_def ..
  obtain r0 w0 where run: "run_snapper env ?args (Some (name (config s))) True w = (r0, w0)"
    by (rule prod.exhaust)
  have mark: "(case set_backed_up env s True w of
        (Inl e, s', w') \<Rightarrow> \<not> snapper_version_ok w \<and> s' = s
      | (Inr u, s', w') \<Rightarrow> is_backed_up s')"
  proof (cases r0)
    case (Inl e)
    with run_snapper_dry_facts(2) [where env = env and args = ?args
        and conf = "Some (name (config s))" and w = w] run
    show ?thesis unfolding unfold by simp
  next
    case (Inr j)
    with run show ?thesis unfolding unfold by (simp add: is_backed_up_def)
  qed
  with run_snapper_dry_facts [where env = env and args = args and conf = conf and w = w]
  show ?thesis by (simp only: simp_thms)
qed

text \<open>
  C8 as stated fails: in a process where no command has run yet, a dry-run
  \<^verbatim>\<open>set_backed_up\<close> calls the tool once, for its version.
\<close>

theorem dry_run_counterexample:
  "(case set_backed_up env_quiet (SnapperSnapshot_init cfg_local info_A) True w_fresh of
      (r, s', w') \<Rightarrow> (r, invocations w', printed w'))
   = (Inr (), [[''snapper'', ''--version'']],
      [[''snapper'', ''-c'', ''root'', ''--jsonout'', ''modify'', ''--userdata'',
        ''snapborg_backup=local'', ''1'']])"
  by (simp add: run_defs)

end
